theory Spec2Isabelle
  imports Complex_Main "HOL-Library.Word"
begin

section \<open>Data model of the piano sketch\<close>

text \<open>
  The sketch \<^verbatim>\<open>piano2.ino\<close> has two parallel constant arrays, one shared variable
  and two units of execution: the callback \<^verbatim>\<open>buttonCallback\<close>, run by the event loop,
  and the task \<^verbatim>\<open>toneTask\<close>, which never returns. On the ESP32 an \<^verbatim>\<open>int\<close> and a
  \<^verbatim>\<open>uint32_t\<close> are both 32 bits wide; a comparison or a division between the two is
  done on the unsigned reading, so both are words of 32 bits here and the bit pattern is
  what is compared.
\<close>

type_synonym int32 = "32 word"
type_synonym uint32 = "32 word"
type_synonym uint8 = "8 word"

definition notes_arr :: "int32 list" where
  "notes_arr = [262, 294, 330, 349, 392, 440, 494, 523]"

definition noteNames :: "string list" where
  "noteNames = [''C'', ''D'', ''E'', ''F'', ''G'', ''A'', ''B'', ''C5'']"

text \<open>\<^verbatim>\<open>NUM_KEYS = sizeof(notes) / sizeof(notes[0])\<close>\<close>

definition NUM_KEYS :: nat where
  "NUM_KEYS = length notes_arr"

text \<open>The note table of the specification: the two arrays read side by side.\<close>

definition NoteTable :: "(string \<times> int32) list" where
  "NoteTable = zip noteNames notes_arr"

text \<open>
  The program points of \<^verbatim>\<open>toneTask\<close>, named by the line of \<^verbatim>\<open>piano2.ino\<close> that
  executes next. Every read of the volatile \<^verbatim>\<open>currentFrequency\<close> and every
  \<^verbatim>\<open>dacWrite\<close> is a step of its own, so that the callback can run between any two
  of them.
\<close>

datatype label = L66 | L67 | L70 | L72 | L76 | L78 | L79 | L83 | L85

text \<open>
  The state of the whole system: the shared variable, the locals of \<^verbatim>\<open>toneTask\<close>
  (the loop counter \<^verbatim>\<open>i\<close> is the field \<open>idx\<close>), its program point, and the sequence of
  values handed to \<^verbatim>\<open>dacWrite\<close> so far, oldest first.
\<close>

record sys =
  currentFrequency :: int32
  frequency :: uint32
  period_samples :: uint32
  idx :: uint32
  pc :: label
  dac :: "uint8 list"

text \<open>
  \<^verbatim>\<open>volatile int currentFrequency = 0\<close>, \<^verbatim>\<open>uint32_t frequency = 0\<close>, and the task about
  to execute the first statement of its loop with nothing written yet.
\<close>

definition init :: sys where
  "init = \<lparr>currentFrequency = 0, frequency = 0, period_samples = 0, idx = 0,
           pc = L66, dac = []\<rparr>"

section \<open>The key-event handler\<close>

text \<open>
  A C string is modelled by the characters before its terminating NUL. The C standard
  fixes only the sign of what \<^verbatim>\<open>strcmp\<close> returns: the order of the first two bytes
  that differ, read as unsigned, where a string that ends first meets the other's
  byte against NUL.
\<close>

fun strcmp :: "string \<Rightarrow> string \<Rightarrow> int" where
  "strcmp [] [] = 0"
| "strcmp [] (y # ys) = - 1"
| "strcmp (x # xs) [] = 1"
| "strcmp (x # xs) (y # ys) =
     (if x = y then strcmp xs ys
      else if (of_char x :: nat) < of_char y then - 1 else 1)"

text \<open>
  The body of the \<^verbatim>\<open>for\<close> loop of \<^verbatim>\<open>buttonCallback\<close> from index \<open>i\<close> on: the first
  name equal to the callback string stores its frequency and returns.
\<close>

function scan_notes :: "nat \<Rightarrow> string \<Rightarrow> sys \<Rightarrow> sys" where
  "scan_notes i aCallbackString s =
     (if i < NUM_KEYS then
        (if strcmp aCallbackString (noteNames ! i) = 0
         then s\<lparr>currentFrequency := notes_arr ! i\<rparr>
         else scan_notes (i + 1) aCallbackString s)
      else s)"
  by pat_completeness auto
termination
  by (relation "measure (\<lambda>(i, a, s). NUM_KEYS - i)") auto

declare scan_notes.simps [simp del]

definition buttonCallback :: "string \<Rightarrow> int32 \<Rightarrow> sys \<Rightarrow> sys" where
  "buttonCallback aCallbackString aValue s =
     (if aValue = 1 then scan_notes 0 aCallbackString s
      else s\<lparr>currentFrequency := 0\<rparr>)"

section \<open>The tone generator\<close>

text \<open>
  The sketch computes a sample in floating point:
  \<^verbatim>\<open>float val = 127.5 + 127.5 * sin(2 * PI * i / period_samples)\<close>. The arithmetic of
  the platform is not part of the sketch, so it is a parameter of the model: the
  rounding of an exact result to \<^verbatim>\<open>double\<close>, the rounding to \<^verbatim>\<open>float\<close>, and the
  library's \<^verbatim>\<open>sin\<close> on doubles. An operation on doubles is the exact operation
  followed by the rounding, as IEEE 754 has it; the conversion of an integer of 32 bits
  to \<^verbatim>\<open>double\<close> is exact, and so are the literals \<^verbatim>\<open>2\<close> and \<^verbatim>\<open>127.5\<close>.
\<close>

record fpu =
  to_double :: "real \<Rightarrow> real"
  to_float :: "real \<Rightarrow> real"
  lib_sin :: "real \<Rightarrow> real"

text \<open>The macro \<^verbatim>\<open>PI\<close> of the Arduino core, a decimal literal read as a double.\<close>

definition PI :: real where
  "PI = 3.1415926535897932384626433832795"

definition sampling_rate :: uint32 where
  "sampling_rate = 20000"

text \<open>
  The double \<^verbatim>\<open>2 * PI * i / period_samples\<close>, evaluated from the left. The loop runs
  the body only for \<open>i < period_samples\<close>, so the divisor is never 0 there.
\<close>

definition phase :: "fpu \<Rightarrow> uint32 \<Rightarrow> uint32 \<Rightarrow> real" where
  "phase fp i n =
     to_double fp (to_double fp (to_double fp (2 * to_double fp PI) * real (unat i))
                   / real (unat n))"

text \<open>The value of \<^verbatim>\<open>val\<close>: the sum is a double, the initialisation rounds it to float.\<close>

definition sine_val :: "fpu \<Rightarrow> uint32 \<Rightarrow> uint32 \<Rightarrow> real" where
  "sine_val fp i n =
     to_float fp (to_double fp (127.5 + to_double fp (127.5 * lib_sin fp (phase fp i n))))"

text \<open>A C conversion from a floating value to an integer type drops the fraction.\<close>

definition c_trunc :: "real \<Rightarrow> int" where
  "c_trunc x = (if 0 \<le> x then \<lfloor>x\<rfloor> else \<lceil>x\<rceil>)"

text \<open>\<^verbatim>\<open>(uint8_t)val\<close>, the value handed to \<^verbatim>\<open>dacWrite\<close> at line 76.\<close>

definition dac_sample :: "fpu \<Rightarrow> uint32 \<Rightarrow> uint32 \<Rightarrow> uint8" where
  "dac_sample fp i n = word_of_int (c_trunc (sine_val fp i n))"

text \<open>
  One step of \<^verbatim>\<open>toneTask\<close>. The step at line 70 is the test together with what the
  taken branch does before its first shared access: the division of line 71 and the
  \<^verbatim>\<open>i = 0\<close> of the loop header. Line 72 is the loop test, line 76 the computation of
  line 75 with the \<^verbatim>\<open>dacWrite\<close>. The two delays (lines 79 and 85) change nothing but
  the program point; line 79 stands for the delay together with the \<^verbatim>\<open>i++\<close> of the
  loop header that follows it. A \<^verbatim>\<open>break\<close>, the end of the \<^verbatim>\<open>for\<close> loop and the end
  of the \<^verbatim>\<open>else\<close> branch all lead back to line 66.
\<close>

definition toneTask :: "fpu \<Rightarrow> sys \<Rightarrow> sys" where
  "toneTask fp s =
     (case pc s of
        L66 \<Rightarrow> if frequency s \<noteq> currentFrequency s then s\<lparr>pc := L67\<rparr> else s\<lparr>pc := L70\<rparr>
      | L67 \<Rightarrow> s\<lparr>frequency := currentFrequency s, pc := L70\<rparr>
      | L70 \<Rightarrow> if 0 < frequency s
               then s\<lparr>period_samples := sampling_rate div frequency s, idx := 0, pc := L72\<rparr>
               else s\<lparr>pc := L83\<rparr>
      | L72 \<Rightarrow> if idx s < period_samples s then s\<lparr>pc := L76\<rparr> else s\<lparr>pc := L66\<rparr>
      | L76 \<Rightarrow> s\<lparr>dac := dac s @ [dac_sample fp (idx s) (period_samples s)], pc := L78\<rparr>
      | L78 \<Rightarrow> if frequency s \<noteq> currentFrequency s then s\<lparr>pc := L66\<rparr> else s\<lparr>pc := L79\<rparr>
      | L79 \<Rightarrow> s\<lparr>idx := idx s + 1, pc := L72\<rparr>
      | L83 \<Rightarrow> s\<lparr>dac := dac s @ [128], pc := L85\<rparr>
      | L85 \<Rightarrow> s\<lparr>pc := L66\<rparr>)"

text \<open>
  The two units run concurrently. A schedule lists what happens in order: a step of
  the tone task, or one call of the callback by the event loop. A call stores to the
  shared variable at most once and reads nothing shared, so it is one action.
\<close>

datatype action = Tone | Key string int32

fun exec :: "fpu \<Rightarrow> action \<Rightarrow> sys \<Rightarrow> sys" where
  "exec fp Tone s = toneTask fp s"
| "exec fp (Key aCallbackString aValue) s = buttonCallback aCallbackString aValue s"

fun run :: "fpu \<Rightarrow> action list \<Rightarrow> sys \<Rightarrow> sys" where
  "run fp [] s = s"
| "run fp (a # as) s = run fp as (exec fp a s)"

text \<open>\<open>n\<close> steps of the tone task with no key event in between.\<close>

definition tone_steps :: "fpu \<Rightarrow> nat \<Rightarrow> sys \<Rightarrow> sys" where
  "tone_steps fp n s = run fp (replicate n Tone) s"

section \<open>Auxiliary notions for the tone generator\<close>



text \<open>
  Two measures on program points, used once the local \<open>frequency\<close> differs from the
  shared variable: how many \<^verbatim>\<open>dacWrite\<close> calls can still come before the task reads
  the new value into \<open>frequency\<close>, and a bound on the number of steps until it does.
\<close>

fun pending_writes :: "label \<Rightarrow> nat" where
  "pending_writes L66 = 0"
| "pending_writes L67 = 0"
| "pending_writes L70 = 1"
| "pending_writes L72 = 1"
| "pending_writes L76 = 1"
| "pending_writes L78 = 0"
| "pending_writes L79 = 1"
| "pending_writes L83 = 1"
| "pending_writes L85 = 0"

fun steps_to_update :: "label \<Rightarrow> nat" where
  "steps_to_update L66 = 2"
| "steps_to_update L67 = 1"
| "steps_to_update L70 = 6"
| "steps_to_update L72 = 5"
| "steps_to_update L76 = 4"
| "steps_to_update L78 = 3"
| "steps_to_update L79 = 6"
| "steps_to_update L83 = 4"
| "steps_to_update L85 = 3"

text \<open>
  What a handler call stores in the shared variable, if anything: 0 on a release, the
  table's frequency on a press of one of its labels, nothing on a press of another
  label. A step of the tone task stores nothing.
\<close>

fun stored :: "action \<Rightarrow> int32 option" where
  "stored Tone = None"
| "stored (Key aCallbackString aValue) =
     (if aValue = 1 then map_of NoteTable aCallbackString else Some 0)"

text \<open>
  The task is before the first sample of a period: outside the \<^verbatim>\<open>for\<close> loop and not
  past a write of the \<^verbatim>\<open>else\<close> branch, or in the loop with its counter still 0.
\<close>

definition before_first_sample :: "sys \<Rightarrow> bool" where
  "before_first_sample s \<longleftrightarrow>
     pc s = L66 \<or> pc s = L67 \<or> pc s = L70 \<or> pc s = L83 \<or>
     ((pc s = L72 \<or> pc s = L76) \<and> idx s = 0)"

text \<open>
  What the facts about sample 0 need of the platform: the roundings leave 0 and 127.5,
  which both formats represent, as they are, and the library's sine of 0 is 0. IEEE 754
  arithmetic with a C library that follows Annex F of the C standard is such a
  platform.
\<close>

definition fp_sound :: "fpu \<Rightarrow> bool" where
  "fp_sound fp \<longleftrightarrow>
     to_double fp 0 = 0 \<and> to_double fp 127.5 = 127.5 \<and> to_float fp 127.5 = 127.5 \<and>
     lib_sin fp 0 = 0"

text \<open>
  A platform of this kind, on which the examples run: rounding to the nearest number
  with \<open>p\<close> bits of precision, ties to the even one, 53 bits for \<^verbatim>\<open>double\<close> and 24 for
  \<^verbatim>\<open>float\<close>, and a sine that is the rounded exact sine. The exponent is not bounded;
  the numbers of the sketch are far from the limits of either format.
\<close>

definition round_even :: "real \<Rightarrow> int" where
  "round_even x =
     (let f = \<lfloor>x\<rfloor> in
      if x - of_int f < 1 / 2 then f
      else if 1 / 2 < x - of_int f then f + 1
      else if even f then f else f + 1)"

definition ieee_round :: "nat \<Rightarrow> real \<Rightarrow> real" where
  "ieee_round p x =
     (if x = 0 then 0
      else let e = \<lfloor>log 2 \<bar>x\<bar>\<rfloor> - int p + 1
           in of_int (round_even (x / 2 powr of_int e)) * 2 powr of_int e)"

definition ieee_fp :: fpu where
  "ieee_fp = \<lparr>to_double = ieee_round 53, to_float = ieee_round 24,
              lib_sin = (\<lambda>x. ieee_round 53 (sin x))\<rparr>"

section \<open>The earlier revision of the sketch\<close>

text \<open>
  The second source file is an earlier revision of the same sketch. Its
  \<^verbatim>\<open>buttonCallback\<close> leaves the loop with \<^verbatim>\<open>break\<close> where the later one returns,
  and counts to the literal 8. Its \<^verbatim>\<open>toneTask\<close> reads the shared variable twice at
  the head of a pass (lines 54 and 55 of that file) and never inside the \<^verbatim>\<open>for\<close>
  loop, so a pass is a function of the two values read. The loop counter is an
  \<^verbatim>\<open>int\<close> compared with a \<^verbatim>\<open>uint32_t\<close>, that is, as unsigned. A division by zero,
  which traps on the target, is the result \<open>None\<close>.
\<close>

function for_loop0 :: "fpu \<Rightarrow> int32 \<Rightarrow> uint32 \<Rightarrow> uint8 list \<Rightarrow> uint8 list" where
  "for_loop0 fp i period out =
     (if i < period then for_loop0 fp (i + 1) period (out @ [dac_sample fp i period]) else out)"
  by pat_completeness auto
termination
proof (relation "measure (\<lambda>(fp, i, period, out). unat period - unat i)")
  show "wf (measure (\<lambda>(fp :: fpu, i :: int32, period :: uint32, out :: uint8 list).
      unat period - unat i))"
    by simp
next
  fix fp :: fpu and i period :: "32 word" and out :: "uint8 list"
  assume lt: "i < period"
  then have a: "unat i < unat period"
    by (simp add: word_less_nat_alt)
  moreover have "unat period < 2 ^ 32"
    using unsigned_less [of period, where ?'a = nat] by simp
  ultimately have "unat i + 1 < 2 ^ 32"
    by simp
  then have "unat (i + 1) = unat i + 1"
    by (simp add: unat_word_ariths)
  with a show "((fp, i + 1, period, out @ [dac_sample fp i period]), (fp, i, period, out))
      \<in> measure (\<lambda>(fp, i, period, out). unat period - unat i)"
    by simp
qed

declare for_loop0.simps [simp del]

text \<open>
  One pass through the body of \<^verbatim>\<open>while (true)\<close>: \<open>r54\<close> and \<open>r55\<close> are the values the
  reads at lines 54 and 55 return, \<open>out\<close> is what has been written so far.
\<close>

definition toneTask0_pass ::
    "fpu \<Rightarrow> int32 \<Rightarrow> int32 \<Rightarrow> uint8 list \<Rightarrow> uint8 list option" where
  "toneTask0_pass fp r54 r55 out =
     (if r54 \<noteq> 0 then
        (let frequency = r55 in
         if frequency = 0 then None
         else Some (for_loop0 fp 0 (sampling_rate div frequency) out))
      else Some (out @ [128]))"

function scan_notes0 :: "nat \<Rightarrow> string \<Rightarrow> sys \<Rightarrow> sys" where
  "scan_notes0 i aCallbackString s =
     (if i < 8 then
        (if strcmp aCallbackString (noteNames ! i) = 0
         then s\<lparr>currentFrequency := notes_arr ! i\<rparr>
         else scan_notes0 (i + 1) aCallbackString s)
      else s)"
  by pat_completeness auto
termination
  by (relation "measure (\<lambda>(i, a, s). 8 - i)") auto

declare scan_notes0.simps [simp del]

definition buttonCallback0 :: "string \<Rightarrow> int32 \<Rightarrow> sys \<Rightarrow> sys" where
  "buttonCallback0 aCallbackString aValue s =
     (if aValue = 1 then scan_notes0 0 aCallbackString s
      else s\<lparr>currentFrequency := 0\<rparr>)"

section \<open>Facts about the key-event handler\<close>

lemma strcmp_eq_0_iff: "strcmp a b = 0 \<longleftrightarrow> a = b"
  by (induction a b rule: strcmp.induct) auto

lemma length_noteNames: "length noteNames = NUM_KEYS"
  by (simp add: noteNames_def NUM_KEYS_def notes_arr_def)

lemma length_NoteTable: "length NoteTable = NUM_KEYS"
  by (simp add: NoteTable_def noteNames_def NUM_KEYS_def notes_arr_def)

lemma NoteTable_nth: "i < NUM_KEYS \<Longrightarrow> NoteTable ! i = (noteNames ! i, notes_arr ! i)"
  by (simp add: NoteTable_def length_noteNames NUM_KEYS_def)

text \<open>The loop is a first-match lookup in the rest of the table.\<close>

lemma scan_notes_map_of:
  "scan_notes i a s =
     (case map_of (drop i NoteTable) a of
        None \<Rightarrow> s
      | Some f \<Rightarrow> s\<lparr>currentFrequency := f\<rparr>)"
proof (induction i a s rule: scan_notes.induct)
  case (1 i a s)
  show ?case
  proof (cases "i < NUM_KEYS")
    case False
    then have "drop i NoteTable = []"
      by (simp add: length_NoteTable)
    with False show ?thesis
      by (simp add: scan_notes.simps [of i])
  next
    case True
    then have d: "drop i NoteTable = (noteNames ! i, notes_arr ! i) # drop (Suc i) NoteTable"
      by (simp add: Cons_nth_drop_Suc [symmetric] length_NoteTable NoteTable_nth)
    show ?thesis
    proof (cases "a = noteNames ! i")
      case True
      with \<open>i < NUM_KEYS\<close> d show ?thesis
        by (simp add: scan_notes.simps [of i] strcmp_eq_0_iff)
    next
      case False
      with \<open>i < NUM_KEYS\<close> have "scan_notes i a s = scan_notes (i + 1) a s"
        by (simp add: scan_notes.simps [of i] strcmp_eq_0_iff)
      also from \<open>i < NUM_KEYS\<close> False have "\<dots> =
          (case map_of (drop (i + 1) NoteTable) a of
             None \<Rightarrow> s | Some f \<Rightarrow> s\<lparr>currentFrequency := f\<rparr>)"
        by (intro "1.IH") (simp_all add: strcmp_eq_0_iff)
      finally show ?thesis
        using False d by simp
    qed
  qed
qed

lemma buttonCallback_press:
  "buttonCallback a 1 s =
     (case map_of NoteTable a of None \<Rightarrow> s | Some f \<Rightarrow> s\<lparr>currentFrequency := f\<rparr>)"
  by (simp add: buttonCallback_def scan_notes_map_of)

lemma map_of_NoteTable_notes: "map_of NoteTable a = Some f \<Longrightarrow> f \<in> set notes_arr"
  by (auto simp: NoteTable_def dest: map_of_SomeD set_zip_rightD)

lemma dom_NoteTable: "dom (map_of NoteTable) = set noteNames"
  by (simp add: NoteTable_def length_noteNames NUM_KEYS_def)

lemma distinct_noteNames: "distinct noteNames"
  by (simp add: noteNames_def)

text \<open>
  Claim C3. For every label of the note table, a call of the handler with that label
  and the value 1 (pressed) stores exactly the frequency paired with the label: the
  table lookup, where the first match wins, gives the frequency at the label's index,
  and that is what \<open>currentFrequency\<close> holds afterwards, with nothing else changed.
\<close>

theorem buttonCallback_press_in_table:
  "i < NUM_KEYS \<Longrightarrow>
     map_of NoteTable (noteNames ! i) = Some (notes_arr ! i) \<and>
     buttonCallback (noteNames ! i) 1 s = s\<lparr>currentFrequency := notes_arr ! i\<rparr>"
  by (simp add: buttonCallback_press NoteTable_def map_of_zip_nth distinct_noteNames
      length_noteNames NUM_KEYS_def)

theorem buttonCallback_press_in_table_witness:
  "map_of NoteTable ''G'' = Some 392 \<and>
   currentFrequency (buttonCallback ''G'' 1 init) = 392"
  using buttonCallback_press_in_table [of 4 init]
  by (simp add: NUM_KEYS_def notes_arr_def noteNames_def)

text \<open>
  Claim C4. A call with the value 0 (released) stores 0 in \<open>currentFrequency\<close>, for
  every label, in the table or not, and every earlier value of the variable.
\<close>

theorem buttonCallback_release:
  "buttonCallback L 0 s = s\<lparr>currentFrequency := 0\<rparr>"
  by (simp add: buttonCallback_def)

theorem buttonCallback_release_witness:
  "currentFrequency (buttonCallback ''no such key'' 0 (init\<lparr>currentFrequency := 440\<rparr>)) = 0"
  using buttonCallback_release [of "''no such key''" "init\<lparr>currentFrequency := 440\<rparr>"]
  by simp

text \<open>
  Claim C6. A call with the value 1 and a label that is no name of the table returns
  the state it was given: \<open>currentFrequency\<close> keeps its value and nothing else is
  touched. The handler has no error channel at all.
\<close>

theorem buttonCallback_unknown:
  "L \<notin> set noteNames \<Longrightarrow> buttonCallback L 1 s = s"
proof -
  assume "L \<notin> set noteNames"
  then have "map_of NoteTable L = None"
    using dom_NoteTable by blast
  then show ?thesis
    by (simp add: buttonCallback_press)
qed

theorem buttonCallback_unknown_witness:
  "''H'' \<notin> set noteNames \<and>
   buttonCallback ''H'' 1 (init\<lparr>currentFrequency := 330\<rparr>) = init\<lparr>currentFrequency := 330\<rparr>"
proof -
  have h: "''H'' \<notin> set noteNames"
    by (simp add: noteNames_def)
  show ?thesis
    using h buttonCallback_unknown [OF h, of "init\<lparr>currentFrequency := 330\<rparr>"] by simp
qed

text \<open>
  Claim C9. Every event value other than 1 is handled as a release: whatever the
  label, the call stores 0 in \<open>currentFrequency\<close>. Only the value 1 takes the press
  branch.
\<close>

theorem buttonCallback_not_1:
  "v \<noteq> 1 \<Longrightarrow> buttonCallback L v s = s\<lparr>currentFrequency := 0\<rparr>"
  by (simp add: buttonCallback_def)

theorem buttonCallback_not_1_witness:
  "(2 :: int32) \<noteq> 1 \<and>
   currentFrequency (buttonCallback ''C'' 2 (init\<lparr>currentFrequency := 294\<rparr>)) = 0"
  using buttonCallback_not_1 [of 2 "''C''" "init\<lparr>currentFrequency := 294\<rparr>"]
  by simp

section \<open>The shared variable under every schedule\<close>

lemma currentFrequency_toneTask: "currentFrequency (toneTask fp s) = currentFrequency s"
  by (simp add: toneTask_def split: label.split)

lemma buttonCallback_range:
  "currentFrequency (buttonCallback L v s) = currentFrequency s \<or>
   currentFrequency (buttonCallback L v s) = 0 \<or>
   currentFrequency (buttonCallback L v s) \<in> set notes_arr"
proof (cases "v = 1")
  case True
  then show ?thesis
    by (cases "map_of NoteTable L")
       (simp_all add: buttonCallback_press map_of_NoteTable_notes)
next
  case False
  then show ?thesis
    by (simp add: buttonCallback_def)
qed

lemma exec_inv:
  assumes "currentFrequency s = 0 \<or> currentFrequency s \<in> set notes_arr"
  shows "currentFrequency (exec fp a s) = 0 \<or> currentFrequency (exec fp a s) \<in> set notes_arr"
proof (cases a)
  case Tone
  with assms show ?thesis
    by (simp add: currentFrequency_toneTask)
next
  case (Key L v)
  with assms buttonCallback_range [of L v s] show ?thesis
    by auto
qed

lemma run_inv:
  "currentFrequency s = 0 \<or> currentFrequency s \<in> set notes_arr \<Longrightarrow>
   currentFrequency (run fp sched s) = 0 \<or> currentFrequency (run fp sched s) \<in> set notes_arr"
proof (induction sched arbitrary: s)
  case Nil
  then show ?case by simp
next
  case (Cons a sched)
  from Cons.prems have "currentFrequency (exec fp a s) = 0 \<or>
      currentFrequency (exec fp a s) \<in> set notes_arr"
    by (rule exec_inv)
  then show ?case
    using Cons.IH [of "exec fp a s"] by simp
qed

text \<open>
  Claim C5. \<open>currentFrequency\<close> starts at 0, and in every state the system reaches
  from its start, under any interleaving of handler calls (with any label and value)
  and steps of the tone task, it is 0 or one of the eight frequencies of the table.
  The tone task never stores to it.
\<close>

theorem currentFrequency_invariant:
  "currentFrequency init = 0 \<and>
   (currentFrequency (run fp sched init) = 0 \<or>
    currentFrequency (run fp sched init) \<in> set notes_arr) \<and>
   currentFrequency (toneTask fp s) = currentFrequency s"
proof (intro conjI)
  show z: "currentFrequency init = 0"
    by (simp add: init_def)
  then show "currentFrequency (run fp sched init) = 0 \<or>
    currentFrequency (run fp sched init) \<in> set notes_arr"
    by (intro run_inv) simp
  show "currentFrequency (toneTask fp s) = currentFrequency s"
    by (rule currentFrequency_toneTask)
qed

theorem currentFrequency_invariant_witness:
  "currentFrequency (run ieee_fp [Key ''A'' 1, Tone, Key ''C5'' 1, Tone, Tone] init) = 523"
proof -
  have "currentFrequency (run ieee_fp [Key ''A'' 1, Tone, Key ''C5'' 1, Tone, Tone] init) = 523"
    by (simp add: buttonCallback_press NoteTable_def noteNames_def notes_arr_def
        currentFrequency_toneTask)
  with currentFrequency_invariant
    [where fp = ieee_fp and sched = "[Key ''A'' 1, Tone, Key ''C5'' 1, Tone, Tone]"]
  show ?thesis by simp
qed

section \<open>Steps of the tone task\<close>

lemma run_append: "run fp (as @ bs) s = run fp bs (run fp as s)"
  by (induction as arbitrary: s) simp_all

lemma tone_steps_0: "tone_steps fp 0 s = s"
  by (simp add: tone_steps_def)

lemma tone_steps_Suc: "tone_steps fp (Suc n) s = tone_steps fp n (toneTask fp s)"
  by (simp add: tone_steps_def)

lemma tone_steps_numeral:
  "tone_steps fp (numeral k) s = tone_steps fp (pred_numeral k) (toneTask fp s)"
  by (simp add: numeral_eq_Suc tone_steps_Suc)

lemmas tone_steps_unroll = tone_steps_numeral tone_steps_Suc tone_steps_0

lemma tone_steps_add: "tone_steps fp (m + n) s = tone_steps fp n (tone_steps fp m s)"
  by (simp add: tone_steps_def replicate_add run_append)

lemma currentFrequency_tone_steps: "currentFrequency (tone_steps fp n s) = currentFrequency s"
  by (induction n arbitrary: s) (simp_all add: tone_steps_0 tone_steps_Suc currentFrequency_toneTask)

lemma at_L66:
  "pc s = L66 \<Longrightarrow> toneTask fp s =
     (if frequency s \<noteq> currentFrequency s then s\<lparr>pc := L67\<rparr> else s\<lparr>pc := L70\<rparr>)"
  by (simp add: toneTask_def)

lemma at_L67: "pc s = L67 \<Longrightarrow> toneTask fp s = s\<lparr>frequency := currentFrequency s, pc := L70\<rparr>"
  by (simp add: toneTask_def)

lemma at_L70:
  "pc s = L70 \<Longrightarrow> toneTask fp s =
     (if 0 < frequency s
      then s\<lparr>period_samples := sampling_rate div frequency s, idx := 0, pc := L72\<rparr>
      else s\<lparr>pc := L83\<rparr>)"
  by (simp add: toneTask_def)

lemma at_L72:
  "pc s = L72 \<Longrightarrow> toneTask fp s =
     (if idx s < period_samples s then s\<lparr>pc := L76\<rparr> else s\<lparr>pc := L66\<rparr>)"
  by (simp add: toneTask_def)

lemma at_L76:
  "pc s = L76 \<Longrightarrow> toneTask fp s =
     s\<lparr>dac := dac s @ [dac_sample fp (idx s) (period_samples s)], pc := L78\<rparr>"
  by (simp add: toneTask_def)

lemma at_L78:
  "pc s = L78 \<Longrightarrow> toneTask fp s =
     (if frequency s \<noteq> currentFrequency s then s\<lparr>pc := L66\<rparr> else s\<lparr>pc := L79\<rparr>)"
  by (simp add: toneTask_def)

lemma at_L79: "pc s = L79 \<Longrightarrow> toneTask fp s = s\<lparr>idx := idx s + 1, pc := L72\<rparr>"
  by (simp add: toneTask_def)

lemma at_L83: "pc s = L83 \<Longrightarrow> toneTask fp s = s\<lparr>dac := dac s @ [128], pc := L85\<rparr>"
  by (simp add: toneTask_def)

lemma at_L85: "pc s = L85 \<Longrightarrow> toneTask fp s = s\<lparr>pc := L66\<rparr>"
  by (simp add: toneTask_def)

lemmas at_pc = at_L66 at_L67 at_L70 at_L72 at_L76 at_L78 at_L79 at_L83 at_L85

text \<open>One pass through the body of the \<^verbatim>\<open>for\<close> loop when nothing changes the shared variable.\<close>

lemma loop_body:
  assumes "pc s = L72" "frequency s = currentFrequency s" "idx s < period_samples s"
  shows "tone_steps fp 4 s =
     s\<lparr>idx := idx s + 1, dac := dac s @ [dac_sample fp (idx s) (period_samples s)]\<rparr>"
  using assms by (simp add: tone_steps_unroll at_pc)

lemma unat_succ:
  fixes i n :: uint32
  assumes "i < n"
  shows "unat (i + 1) = Suc (unat i)"
proof -
  have "unat i < unat n"
    using assms by (simp add: word_less_nat_alt)
  moreover have "unat n < 2 ^ 32"
    using unsigned_less [of n, where ?'a = nat] by simp
  ultimately have "unat i + 1 < 2 ^ 32"
    by simp
  then show ?thesis
    by (simp add: unat_word_ariths)
qed

lemma loop_rest:
  assumes "pc s = L72" "frequency s = currentFrequency s" "idx s \<le> period_samples s"
    "d = unat (period_samples s) - unat (idx s)"
  shows "tone_steps fp (4 * d + 1) s =
     s\<lparr>idx := period_samples s, pc := L66,
        dac := dac s @ map (\<lambda>k. dac_sample fp (of_nat k) (period_samples s))
                 [unat (idx s) ..< unat (period_samples s)]\<rparr>"
  using assms
proof (induction d arbitrary: s)
  case 0
  then have "idx s = period_samples s"
    by (simp add: word_le_nat_alt word_unat_eq_iff)
  with 0 show ?case
    by (simp add: tone_steps_Suc tone_steps_0 at_pc)
next
  case (Suc d)
  then have lt: "idx s < period_samples s"
    by (simp add: word_less_nat_alt)
  let ?s' = "s\<lparr>idx := idx s + 1, dac := dac s @ [dac_sample fp (idx s) (period_samples s)]\<rparr>"
  have u: "unat (idx s + 1) = Suc (unat (idx s))"
    using lt by (rule unat_succ)
  have "tone_steps fp (4 * Suc d + 1) s = tone_steps fp (4 * d + 1) (tone_steps fp 4 s)"
    by (simp add: tone_steps_add [symmetric])
  also have "tone_steps fp 4 s = ?s'"
    using Suc.prems lt by (simp add: loop_body)
  also have "tone_steps fp (4 * d + 1) ?s' =
     ?s'\<lparr>idx := period_samples ?s', pc := L66,
        dac := dac ?s' @ map (\<lambda>k. dac_sample fp (of_nat k) (period_samples ?s'))
                 [unat (idx ?s') ..< unat (period_samples ?s')]\<rparr>"
    using Suc.prems lt u
    by (intro Suc.IH) (simp_all add: word_le_nat_alt word_less_nat_alt)
  also have "\<dots> = s\<lparr>idx := period_samples s, pc := L66,
        dac := dac s @ map (\<lambda>k. dac_sample fp (of_nat k) (period_samples s))
                 [unat (idx s) ..< unat (period_samples s)]\<rparr>"
    using lt u by (simp add: upt_conv_Cons word_less_nat_alt)
  finally show ?case .
qed

section \<open>The first sample of a period\<close>

lemma round_even_of_int: "round_even (of_int k) = k"
  by (simp add: round_even_def)

lemma floor_log2_mid: "\<lfloor>log 2 (127.5 :: real)\<rfloor> = 6"
proof -
  have "(2 :: real) powr 6 \<le> 127.5" "(127.5 :: real) < 2 powr 7"
    by simp_all
  then have "6 \<le> log 2 (127.5 :: real)" "log 2 (127.5 :: real) < 7"
    by (simp_all add: le_log_iff log_less_iff)
  then show ?thesis
    by (intro floor_unique) simp_all
qed

lemma ieee_round_mid:
  assumes "8 \<le> p"
  shows "ieee_round p 127.5 = 127.5"
proof -
  define e where "e = 6 - int p + 1"
  have "\<bar>127.5 :: real\<bar> = 127.5"
    by simp
  then have "\<lfloor>log 2 \<bar>127.5 :: real\<bar>\<rfloor> = 6"
    by (simp only: floor_log2_mid)
  then have e: "\<lfloor>log 2 \<bar>127.5 :: real\<bar>\<rfloor> - int p + 1 = e"
    by (simp only: e_def)
  have pw: "(2 :: real) powr of_int e = 1 / 2 ^ (p - 7)"
  proof -
    have "of_int e = - real (p - 7)"
      using assms by (simp add: e_def)
    then show ?thesis
      by (simp add: powr_minus powr_realpow divide_simps)
  qed
  have "(127.5 :: real) / 2 powr of_int e = of_int (255 * 2 ^ (p - 8))"
  proof -
    have "p - 7 = Suc (p - 8)"
      using assms by simp
    then show ?thesis
      by (simp add: pw)
  qed
  then have r: "round_even (127.5 / 2 powr of_int e) = 255 * 2 ^ (p - 8)"
    by (simp only: round_even_of_int)
  have scaled: "of_int (255 * 2 ^ (p - 8)) * 2 powr of_int e = (127.5 :: real)"
  proof -
    have "p - 7 = Suc (p - 8)"
      using assms by simp
    then show ?thesis
      by (simp add: pw)
  qed
  have nz: "(127.5 :: real) \<noteq> 0"
    by simp
  have "ieee_round p 127.5 =
      (let e' = \<lfloor>log 2 \<bar>127.5 :: real\<bar>\<rfloor> - int p + 1
       in of_int (round_even (127.5 / 2 powr of_int e')) * 2 powr of_int e')"
    by (simp only: ieee_round_def nz if_False)
  also have "\<dots> = of_int (round_even (127.5 / 2 powr of_int e)) * 2 powr of_int e"
    by (simp only: e Let_def)
  also have "\<dots> = of_int (255 * 2 ^ (p - 8)) * 2 powr of_int e"
    by (simp only: r)
  also have "\<dots> = 127.5"
    by (rule scaled)
  finally show ?thesis .
qed

lemma ieee_round_0: "ieee_round p 0 = 0"
  by (simp add: ieee_round_def)

lemma fp_sound_ieee_fp: "fp_sound ieee_fp"
proof -
  have "ieee_round 53 127.5 = 127.5" "ieee_round 24 127.5 = 127.5"
    by (rule ieee_round_mid, simp)+
  moreover have "ieee_round 53 (sin 0) = 0"
    by (simp only: sin_zero ieee_round_0)
  ultimately show ?thesis
    unfolding fp_sound_def ieee_fp_def
    by (simp only: fpu.simps ieee_round_0 simp_thms)
qed

lemma phase_0: "fp_sound fp \<Longrightarrow> phase fp 0 n = 0"
  by (simp add: phase_def fp_sound_def)

lemma sine_val_0:
  assumes "fp_sound fp"
  shows "sine_val fp 0 n = 127.5"
proof -
  from assms have d0: "to_double fp 0 = 0" and d: "to_double fp 127.5 = 127.5"
    and f: "to_float fp 127.5 = 127.5" and s0: "lib_sin fp 0 = 0"
    by (simp_all only: fp_sound_def)
  have "127.5 * lib_sin fp (phase fp 0 n) = 0"
    by (simp add: phase_0 [OF assms] s0)
  then have "to_double fp (127.5 * lib_sin fp (phase fp 0 n)) = 0"
    by (simp only: d0)
  then have "127.5 + to_double fp (127.5 * lib_sin fp (phase fp 0 n)) = (127.5 :: real)"
    by simp
  then have "sine_val fp 0 n = to_float fp (to_double fp 127.5)"
    by (simp only: sine_val_def)
  also have "\<dots> = 127.5"
    by (simp only: d f)
  finally show ?thesis .
qed

lemma dac_sample_0: "fp_sound fp \<Longrightarrow> dac_sample fp 0 n = 127"
  by (simp add: dac_sample_def sine_val_0 c_trunc_def)

text \<open>A whole period from line 70 on, when the shared variable keeps the value read.\<close>

lemma period_from_L70:
  assumes "pc s = L70" "0 < frequency s" "currentFrequency s = frequency s"
    "n = sampling_rate div frequency s"
  shows "tone_steps fp (4 * unat n + 2) s =
     s\<lparr>period_samples := n, idx := n, pc := L66,
        dac := dac s @ map (\<lambda>k. dac_sample fp (of_nat k) n) [0 ..< unat n]\<rparr>"
proof -
  let ?s1 = "s\<lparr>period_samples := n, idx := 0, pc := L72\<rparr>"
  have "tone_steps fp (4 * unat n + 2) s = tone_steps fp (4 * unat n + 1) (tone_steps fp 1 s)"
    by (simp add: tone_steps_add [symmetric])
  also have "tone_steps fp 1 s = ?s1"
    using assms by (simp add: tone_steps_unroll at_pc)
  also have "tone_steps fp (4 * unat n + 1) ?s1 =
     ?s1\<lparr>idx := period_samples ?s1, pc := L66,
        dac := dac ?s1 @ map (\<lambda>k. dac_sample fp (of_nat k) (period_samples ?s1))
                 [unat (idx ?s1) ..< unat (period_samples ?s1)]\<rparr>"
    using assms by (intro loop_rest) simp_all
  finally show ?thesis
    by simp
qed

lemma unat_period: "unat (sampling_rate div f) = 20000 div unat f"
  by (simp add: unat_div sampling_rate_def)

text \<open>
  Claim C1, where the code departs from it. Let the task be at line 70 with a local
  \<open>frequency\<close> between 1 and 20000 that is the value of the shared variable, and let
  no key event happen. With \<open>n = 20000 div frequency\<close>, after \<open>4 * n + 2\<close> steps the
  task has written exactly \<open>n\<close> samples, and \<open>n\<close> is at least 1. The first of them is the
  sample of index 0, and on every platform whose arithmetic is exact at 0 and 127.5
  that sample is \<^verbatim>\<open>(uint8_t)127.5\<close>, which is 127: the cast drops the half. The claim,
  like the comment above line 75 and the silence branch, has the mid-point 128 there.
\<close>

theorem first_sample_of_period:
  assumes "fp_sound fp" and "pc s = L70" and "0 < frequency s" and "frequency s \<le> 20000"
    and "currentFrequency s = frequency s"
  shows "let n = sampling_rate div frequency s;
             s' = tone_steps fp (4 * unat n + 2) s in
     unat n = 20000 div unat (frequency s) \<and> 0 < unat n \<and>
     length (dac s') = length (dac s) + unat n \<and>
     dac s' ! length (dac s) = dac_sample fp 0 n \<and>
     dac_sample fp 0 n = 127 \<and>
     dac s' ! length (dac s) \<noteq> 128"
proof -
  define n where "n = sampling_rate div frequency s"
  define s' where "s' = tone_steps fp (4 * unat n + 2) s"
  have un: "unat n = 20000 div unat (frequency s)"
    by (simp add: n_def unat_period)
  from assms(3,4) have "0 < unat (frequency s)" "unat (frequency s) \<le> 20000"
    by (simp_all add: word_le_nat_alt word_less_nat_alt)
  then have pos: "0 < unat n"
    by (simp add: un div_greater_zero_iff)
  have eq: "s' = s\<lparr>period_samples := n, idx := n, pc := L66,
            dac := dac s @ map (\<lambda>k. dac_sample fp (of_nat k) n) [0 ..< unat n]\<rparr>"
    unfolding s'_def using assms(2,3,5) n_def by (rule period_from_L70)
  have len: "length (dac s') = length (dac s) + unat n"
    by (simp add: eq)
  from pos have "[0 ..< unat n] = 0 # [1 ..< unat n]"
    by (simp add: upt_conv_Cons)
  then have first: "dac s' ! length (dac s) = dac_sample fp 0 n"
    by (simp add: eq)
  have v: "dac_sample fp 0 n = 127"
    using assms(1) by (rule dac_sample_0)
  from first v have ne: "dac s' ! length (dac s) \<noteq> 128"
    by simp
  from un pos len first v ne show ?thesis
    unfolding Let_def n_def [symmetric] s'_def [symmetric] by blast
qed

theorem first_sample_of_period_witness:
  "fp_sound ieee_fp \<and>
   length (dac (tone_steps ieee_fp 306
      (init\<lparr>currentFrequency := 262, frequency := 262, pc := L70\<rparr>))) = 76 \<and>
   dac (tone_steps ieee_fp 306
      (init\<lparr>currentFrequency := 262, frequency := 262, pc := L70\<rparr>)) ! 0 = 127"
proof -
  have d: "sampling_rate div 262 = 76"
    by (simp add: sampling_rate_def)
  show ?thesis
    using first_sample_of_period [OF fp_sound_ieee_fp,
        of "init\<lparr>currentFrequency := 262, frequency := 262, pc := L70\<rparr>"]
    by (simp add: Let_def d fp_sound_ieee_fp init_def)
qed

text \<open>
  The same from the start of the system: pressing C and letting the task run through
  one period of 262 Hz writes 76 samples, the first of which is 127.
\<close>

lemma first_sample_after_press:
  assumes "fp_sound fp"
  shows "length (dac (run fp (Key ''C'' 1 # replicate 308 Tone) init)) = 76 \<and>
     hd (dac (run fp (Key ''C'' 1 # replicate 308 Tone) init)) = 127"
proof -
  let ?s0 = "init\<lparr>currentFrequency := 262, frequency := 262, pc := L70\<rparr>"
  have k: "buttonCallback ''C'' 1 init = init\<lparr>currentFrequency := 262\<rparr>"
    by (simp add: buttonCallback_press NoteTable_def noteNames_def notes_arr_def)
  have "tone_steps fp 2 (init\<lparr>currentFrequency := 262\<rparr>) = ?s0"
    by (simp add: tone_steps_unroll at_pc init_def)
  then have "run fp (Key ''C'' 1 # replicate 308 Tone) init = tone_steps fp 306 ?s0"
    using tone_steps_add [of fp 2 306 "init\<lparr>currentFrequency := 262\<rparr>"]
    by (simp add: k tone_steps_def)
  also have "\<dots> = ?s0\<lparr>period_samples := 76, idx := 76, pc := L66,
        dac := dac ?s0 @ map (\<lambda>k. dac_sample fp (of_nat k) 76) [0 ..< unat (76 :: uint32)]\<rparr>"
    using period_from_L70 [of ?s0 76 fp] by (simp add: sampling_rate_def init_def)
  finally show ?thesis
    using assms by (simp add: init_def upt_conv_Cons [of 0 76] dac_sample_0)
qed

section \<open>After a change of the shared variable\<close>

lemma buttonCallback_only_currentFrequency:
  "buttonCallback L v s = s\<lparr>currentFrequency := currentFrequency (buttonCallback L v s)\<rparr>"
proof (cases "v = 1")
  case True
  then show ?thesis
    by (cases "map_of NoteTable L") (simp_all add: buttonCallback_press)
next
  case False
  then show ?thesis
    by (simp add: buttonCallback_def)
qed

lemma stored_exec:
  "currentFrequency (exec fp a s) =
     (case stored a of None \<Rightarrow> currentFrequency s | Some f \<Rightarrow> f)"
proof (cases a)
  case Tone
  then show ?thesis
    by (simp add: currentFrequency_toneTask)
next
  case (Key L v)
  show ?thesis
  proof (cases "v = 1")
    case True
    with Key show ?thesis
      by (cases "map_of NoteTable L") (simp_all add: buttonCallback_press)
  next
    case False
    with Key show ?thesis
      by (simp add: buttonCallback_def)
  qed
qed

lemma key_frame:
  "frequency (buttonCallback L v s) = frequency s \<and> pc (buttonCallback L v s) = pc s \<and>
   idx (buttonCallback L v s) = idx s \<and> dac (buttonCallback L v s) = dac s"
  using buttonCallback_only_currentFrequency [of L v s]
  by (metis (no_types, lifting) sys.ext_inject sys.surjective sys.update_convs(1))

lemma frequency_toneTask_cases:
  "frequency (toneTask fp s) = frequency s \<or> frequency (toneTask fp s) = currentFrequency s"
  by (simp add: toneTask_def split: label.split)

lemma stale_step:
  assumes "frequency s \<noteq> currentFrequency s"
  shows "frequency (toneTask fp s) = currentFrequency s \<or>
     (frequency (toneTask fp s) = frequency s \<and>
      steps_to_update (pc (toneTask fp s)) < steps_to_update (pc s) \<and>
      length (dac (toneTask fp s)) + pending_writes (pc (toneTask fp s))
        \<le> length (dac s) + pending_writes (pc s))"
  using assms by (cases "pc s") (simp_all add: at_pc)

text \<open>
  One action while the shared variable differs from \<open>f\<close> and \<open>f\<close> is not stored: the
  variable still differs from \<open>f\<close>, and if the task still plays \<open>f\<close> it played \<open>f\<close>
  before, a step of its own has brought it nearer to the read that takes the new value
  over, and the writes made and still possible have not become more.
\<close>

lemma stale_exec:
  assumes "currentFrequency s \<noteq> f" "stored a \<noteq> Some f"
  shows "currentFrequency (exec fp a s) \<noteq> f \<and>
     (frequency (exec fp a s) = f \<longrightarrow>
        frequency s = f \<and>
        steps_to_update (pc (exec fp a s)) + count_list [a] Tone \<le> steps_to_update (pc s) \<and>
        length (dac (exec fp a s)) + pending_writes (pc (exec fp a s))
          \<le> length (dac s) + pending_writes (pc s))"
proof (intro conjI impI)
  show "currentFrequency (exec fp a s) \<noteq> f"
    using assms by (cases "stored a") (simp_all add: stored_exec)
next
  assume e: "frequency (exec fp a s) = f"
  show "frequency s = f"
  proof (cases a)
    case Tone
    with e assms(1) frequency_toneTask_cases [of fp s] show ?thesis by auto
  next
    case (Key L v)
    with e show ?thesis by (simp add: key_frame)
  qed
  then have ne: "frequency s \<noteq> currentFrequency s"
    using assms(1) by simp
  show "steps_to_update (pc (exec fp a s)) + count_list [a] Tone \<le> steps_to_update (pc s)"
  proof (cases a)
    case Tone
    with e assms(1) stale_step [OF ne, of fp] show ?thesis by auto
  next
    case (Key L v)
    then show ?thesis by (simp add: key_frame)
  qed
  show "length (dac (exec fp a s)) + pending_writes (pc (exec fp a s))
          \<le> length (dac s) + pending_writes (pc s)"
  proof (cases a)
    case Tone
    with e assms(1) stale_step [OF ne, of fp] show ?thesis by auto
  next
    case (Key L v)
    then show ?thesis by (simp add: key_frame)
  qed
qed

lemma stale_run:
  assumes "currentFrequency s \<noteq> f" "\<forall>a\<in>set sched. stored a \<noteq> Some f"
  shows "frequency (run fp sched s) = f \<longrightarrow>
        frequency s = f \<and>
        steps_to_update (pc (run fp sched s)) + count_list sched Tone \<le> steps_to_update (pc s) \<and>
        length (dac (run fp sched s)) + pending_writes (pc (run fp sched s))
          \<le> length (dac s) + pending_writes (pc s)"
  using assms
proof (induction sched arbitrary: s)
  case Nil
  then show ?case by simp
next
  case (Cons a sched)
  let ?t = "exec fp a s"
  from Cons.prems have a: "stored a \<noteq> Some f" and rest: "\<forall>a\<in>set sched. stored a \<noteq> Some f"
    by simp_all
  from stale_exec [OF Cons.prems(1) a, of fp]
  have t: "currentFrequency ?t \<noteq> f"
    and st: "frequency ?t = f \<longrightarrow>
        frequency s = f \<and>
        steps_to_update (pc ?t) + count_list [a] Tone \<le> steps_to_update (pc s) \<and>
        length (dac ?t) + pending_writes (pc ?t) \<le> length (dac s) + pending_writes (pc s)"
    by simp_all
  show ?case
  proof
    assume "frequency (run fp (a # sched) s) = f"
    then have r: "frequency (run fp sched ?t) = f"
      by simp
    with Cons.IH [OF t rest] have
      "frequency ?t = f"
      "steps_to_update (pc (run fp sched ?t)) + count_list sched Tone \<le> steps_to_update (pc ?t)"
      "length (dac (run fp sched ?t)) + pending_writes (pc (run fp sched ?t))
          \<le> length (dac ?t) + pending_writes (pc ?t)"
      by simp_all
    with st show "frequency s = f \<and>
        steps_to_update (pc (run fp (a # sched) s)) + count_list (a # sched) Tone
          \<le> steps_to_update (pc s) \<and>
        length (dac (run fp (a # sched) s)) + pending_writes (pc (run fp (a # sched) s))
          \<le> length (dac s) + pending_writes (pc s)"
      by (cases "a = Tone") simp_all
  qed
qed

lemma pending_writes_le: "pending_writes l \<le> 1"
  by (cases l) simp_all

lemma steps_to_update_le: "0 < steps_to_update l \<and> steps_to_update l \<le> 6"
  by (cases l) simp_all

subsection \<open>After the loop has been left\<close>

lemma dac_exec_grows:
  "dac (exec fp a s) = dac s \<or> (\<exists>v. dac (exec fp a s) = dac s @ [v])"
proof (cases a)
  case Tone
  then show ?thesis
    by (cases "pc s") (simp_all add: at_pc)
next
  case (Key L v)
  then show ?thesis by (simp add: key_frame)
qed

lemma dac_run_prefix: "\<exists>ext. dac (run fp sched s) = dac s @ ext"
proof (induction sched arbitrary: s)
  case Nil
  then show ?case by simp
next
  case (Cons a sched)
  from Cons.IH [of "exec fp a s"] obtain ext where
    "dac (run fp sched (exec fp a s)) = dac (exec fp a s) @ ext"
    by blast
  with dac_exec_grows [of fp a s] show ?case
    by auto
qed

lemma before_first_sample_toneTask:
  assumes "before_first_sample s"
  shows "(dac (toneTask fp s) = dac s \<and> before_first_sample (toneTask fp s)) \<or>
     dac (toneTask fp s) = dac s @ [dac_sample fp 0 (period_samples s)] \<or>
     dac (toneTask fp s) = dac s @ [128]"
  using assms by (cases "pc s") (auto simp: before_first_sample_def at_pc)

lemma before_first_sample_exec:
  assumes "before_first_sample s" "dac (exec fp a s) = dac s"
  shows "before_first_sample (exec fp a s)"
proof (cases a)
  case Tone
  with assms before_first_sample_toneTask [OF assms(1), of fp] show ?thesis
    by auto
next
  case (Key L v)
  with assms(1) show ?thesis
    by (simp add: before_first_sample_def key_frame)
qed

lemma before_first_sample_run:
  assumes "before_first_sample s" "dac (run fp sched s) = dac s"
  shows "before_first_sample (run fp sched s)"
  using assms
proof (induction sched arbitrary: s)
  case Nil
  then show ?case by simp
next
  case (Cons a sched)
  from dac_run_prefix [of fp sched "exec fp a s"] obtain ext where
    ext: "dac (run fp sched (exec fp a s)) = dac (exec fp a s) @ ext"
    by blast
  from dac_exec_grows [of fp a s] Cons.prems(2) ext have same: "dac (exec fp a s) = dac s"
    by auto
  with Cons.prems have "before_first_sample (exec fp a s)"
    by (intro before_first_sample_exec)
  moreover from Cons.prems(2) same have "dac (run fp sched (exec fp a s)) = dac (exec fp a s)"
    by simp
  ultimately show ?case
    using Cons.IH [of "exec fp a s"] by simp
qed

text \<open>
  Claim C2, as amended. In \<^verbatim>\<open>piano2.ino\<close> the step after every \<^verbatim>\<open>dacWrite\<close> of the
  loop (line 76) is the read of the shared variable at line 78. When that read differs
  from the local \<open>frequency\<close> the task leaves the loop for the head of the outer loop,
  and under every schedule that follows, for as long as nothing more has been written,
  the task is before the first sample of a period: what it writes next is sample 0 of
  a period or the 128 of silence, never the next sample of the period it left.
  Consequently, from any state in which the shared variable differs from
  \<open>frequency\<close>, under every schedule of tone steps and handler calls none of which
  stores the old frequency again: as long as the task still has the old \<open>frequency\<close>
  it has written at most one more value, and after six steps of its own at most it has
  given the old frequency up. The comparison is by value, so the condition on the
  handler calls cannot be dropped.
\<close>

theorem recheck_after_every_sample:
  "(pc s = L76 \<longrightarrow>
      toneTask fp s =
        s\<lparr>dac := dac s @ [dac_sample fp (idx s) (period_samples s)], pc := L78\<rparr>) \<and>
   (pc s = L78 \<and> frequency s \<noteq> currentFrequency s \<longrightarrow>
      toneTask fp s = s\<lparr>pc := L66\<rparr> \<and>
      (dac (run fp later (toneTask fp s)) = dac s \<longrightarrow>
         before_first_sample (run fp later (toneTask fp s)))) \<and>
   (before_first_sample s \<longrightarrow>
      dac (toneTask fp s) = dac s \<or>
      dac (toneTask fp s) = dac s @ [dac_sample fp 0 (period_samples s)] \<or>
      dac (toneTask fp s) = dac s @ [128]) \<and>
   (frequency s \<noteq> currentFrequency s \<and> (\<forall>a\<in>set sched. stored a \<noteq> Some (frequency s)) \<longrightarrow>
      (frequency (run fp sched s) = frequency s \<longrightarrow>
         length (dac (run fp sched s)) \<le> length (dac s) + 1) \<and>
      (6 \<le> count_list sched Tone \<longrightarrow> frequency (run fp sched s) \<noteq> frequency s))"
proof (intro conjI impI)
  assume "pc s = L76"
  then show "toneTask fp s =
      s\<lparr>dac := dac s @ [dac_sample fp (idx s) (period_samples s)], pc := L78\<rparr>"
    by (simp add: at_pc)
next
  assume a: "pc s = L78 \<and> frequency s \<noteq> currentFrequency s"
  then show t: "toneTask fp s = s\<lparr>pc := L66\<rparr>"
    by (simp add: at_pc)
  assume "dac (run fp later (toneTask fp s)) = dac s"
  with t have "dac (run fp later (toneTask fp s)) = dac (toneTask fp s)"
    by simp
  moreover from t have "before_first_sample (toneTask fp s)"
    by (simp add: before_first_sample_def)
  ultimately show "before_first_sample (run fp later (toneTask fp s))"
    by (intro before_first_sample_run)
next
  assume "before_first_sample s"
  from before_first_sample_toneTask [OF this, of fp]
  show "dac (toneTask fp s) = dac s \<or>
      dac (toneTask fp s) = dac s @ [dac_sample fp 0 (period_samples s)] \<or>
      dac (toneTask fp s) = dac s @ [128]"
    by blast
next
  assume a: "frequency s \<noteq> currentFrequency s \<and>
    (\<forall>a\<in>set sched. stored a \<noteq> Some (frequency s))"
  assume old: "frequency (run fp sched s) = frequency s"
  from a have "currentFrequency s \<noteq> frequency s" by auto
  from stale_run [OF this, of sched fp] a old
  have "length (dac (run fp sched s)) + pending_writes (pc (run fp sched s))
        \<le> length (dac s) + pending_writes (pc s)"
    by simp
  with pending_writes_le [of "pc s"] show "length (dac (run fp sched s)) \<le> length (dac s) + 1"
    by simp
next
  assume a: "frequency s \<noteq> currentFrequency s \<and>
    (\<forall>a\<in>set sched. stored a \<noteq> Some (frequency s))"
  assume n: "6 \<le> count_list sched Tone"
  from a have ne: "currentFrequency s \<noteq> frequency s" by auto
  show "frequency (run fp sched s) \<noteq> frequency s"
  proof
    assume "frequency (run fp sched s) = frequency s"
    with stale_run [OF ne, of sched fp] a
    have "steps_to_update (pc (run fp sched s)) + count_list sched Tone \<le> steps_to_update (pc s)"
      by simp
    with n steps_to_update_le [of "pc s"] steps_to_update_le [of "pc (run fp sched s)"]
    show False by simp
  qed
qed

theorem recheck_after_every_sample_witness:
  "frequency (init\<lparr>currentFrequency := 392, frequency := 262, period_samples := 76,
       idx := 10, pc := L79\<rparr>) \<noteq>
   currentFrequency (init\<lparr>currentFrequency := 392, frequency := 262, period_samples := 76,
       idx := 10, pc := L79\<rparr>) \<and>
   stored Tone \<noteq> Some 262 \<and> stored (Key ''D'' 1) \<noteq> Some 262 \<and>
   frequency (run ieee_fp [Tone, Key ''D'' 1, Tone, Tone]
      (init\<lparr>currentFrequency := 392, frequency := 262, period_samples := 76, idx := 10,
           pc := L79\<rparr>)) = 262 \<and>
   length (dac (run ieee_fp [Tone, Key ''D'' 1, Tone, Tone]
      (init\<lparr>currentFrequency := 392, frequency := 262, period_samples := 76, idx := 10,
           pc := L79\<rparr>))) = 1"
proof -
  let ?s = "init\<lparr>currentFrequency := 392, frequency := 262, period_samples := 76, idx := 10,
           pc := L79\<rparr>"
  have q: "stored Tone \<noteq> Some 262 \<and> stored (Key ''D'' 1) \<noteq> Some 262"
    by (simp add: NoteTable_def noteNames_def notes_arr_def)
  have f: "frequency (run ieee_fp [Tone, Key ''D'' 1, Tone, Tone] ?s) = 262"
    by (simp add: at_pc init_def buttonCallback_press NoteTable_def noteNames_def notes_arr_def)
  from recheck_after_every_sample
    [where s = ?s and fp = ieee_fp and sched = "[Tone, Key ''D'' 1, Tone, Tone]"] q f
  show ?thesis
    by (simp add: init_def at_pc buttonCallback_press NoteTable_def noteNames_def notes_arr_def)
qed

text \<open>
  The claim as stated has the bound after any change. Press C and let the task write
  the first sample of the period; press G, a change, and C again before the task
  re-reads the variable. The read of line 78 finds 262 once more, the period of
  262 Hz goes on, and eight steps later two further samples of it are out.
\<close>

theorem change_undone_counterexample:
  "currentFrequency
     (run ieee_fp [Key ''C'' 1, Tone, Tone, Tone, Tone, Tone, Key ''G'' 1] init) = 392 \<and>
   frequency
     (run ieee_fp [Key ''C'' 1, Tone, Tone, Tone, Tone, Tone, Key ''G'' 1] init) = 262 \<and>
   length (dac
     (run ieee_fp [Key ''C'' 1, Tone, Tone, Tone, Tone, Tone, Key ''G'' 1] init)) = 1 \<and>
   frequency
     (run ieee_fp [Key ''C'' 1, Tone, Tone, Tone, Tone, Tone, Key ''G'' 1, Key ''C'' 1,
        Tone, Tone, Tone, Tone, Tone, Tone, Tone, Tone] init) = 262 \<and>
   idx
     (run ieee_fp [Key ''C'' 1, Tone, Tone, Tone, Tone, Tone, Key ''G'' 1, Key ''C'' 1,
        Tone, Tone, Tone, Tone, Tone, Tone, Tone, Tone] init) = 2 \<and>
   length (dac
     (run ieee_fp [Key ''C'' 1, Tone, Tone, Tone, Tone, Tone, Key ''G'' 1, Key ''C'' 1,
        Tone, Tone, Tone, Tone, Tone, Tone, Tone, Tone] init)) = 3"
  by (simp add: at_pc init_def buttonCallback_press NoteTable_def noteNames_def notes_arr_def
      sampling_rate_def)

section \<open>Writes of the value already held\<close>

text \<open>
  Claim C7. A handler call that leaves in the shared variable the value it already
  holds changes nothing at all: whatever happened before it and whatever follows, the
  system runs exactly as if the call had not been made. The tone task neither leaves
  nor restarts the period in progress, and the values written are the same.
\<close>

theorem same_value_write:
  assumes "currentFrequency (buttonCallback L v (run fp before s)) = currentFrequency (run fp before s)"
  shows "run fp (before @ Key L v # after) s = run fp (before @ after) s"
proof -
  have "buttonCallback L v (run fp before s) = run fp before s"
    using buttonCallback_only_currentFrequency [of L v "run fp before s"] assms by simp
  then show ?thesis
    by (simp add: run_append)
qed

theorem same_value_write_witness:
  "currentFrequency (run ieee_fp [Key ''C'' 1, Tone, Tone, Tone, Tone, Tone] init) = 262 \<and>
   pc (run ieee_fp [Key ''C'' 1, Tone, Tone, Tone, Tone, Tone] init) = L78 \<and>
   run ieee_fp ([Key ''C'' 1, Tone, Tone, Tone, Tone, Tone] @ Key ''C'' 1 # [Tone, Tone, Tone]) init =
   run ieee_fp ([Key ''C'' 1, Tone, Tone, Tone, Tone, Tone] @ [Tone, Tone, Tone]) init"
proof -
  have b: "run ieee_fp [Key ''C'' 1, Tone, Tone, Tone, Tone, Tone] init =
      init\<lparr>currentFrequency := 262, frequency := 262, period_samples := 76, idx := 0,
           pc := L78, dac := [127]\<rparr>"
    by (simp add: buttonCallback_press NoteTable_def noteNames_def notes_arr_def at_pc
        init_def sampling_rate_def dac_sample_0 fp_sound_ieee_fp)
  have h: "currentFrequency (buttonCallback ''C'' 1 (run ieee_fp [Key ''C'' 1, Tone, Tone, Tone, Tone, Tone] init))
      = currentFrequency (run ieee_fp [Key ''C'' 1, Tone, Tone, Tone, Tone, Tone] init)"
    unfolding b by (simp add: buttonCallback_press NoteTable_def noteNames_def notes_arr_def)
  from same_value_write [OF h, of "[Tone, Tone, Tone]"] b show ?thesis
    by simp
qed

section \<open>Silence\<close>









section \<open>Period lengths of the eight notes\<close>

lemma first_write_from_L66:
  assumes "pc s = L66" "0 < sampling_rate div currentFrequency s"
  shows "tone_steps fp (if frequency s = currentFrequency s then 4 else 5) s =
     s\<lparr>frequency := currentFrequency s,
        period_samples := sampling_rate div currentFrequency s, idx := 0, pc := L78,
        dac := dac s @ [dac_sample fp 0 (sampling_rate div currentFrequency s)]\<rparr>"
proof -
  from assms(2) have "currentFrequency s \<noteq> 0"
    by (auto simp: word_less_nat_alt unat_period)
  then have "0 < currentFrequency s"
    by (simp add: word_greater_zero_iff)
  with assms show ?thesis
    by (simp add: tone_steps_unroll at_pc)
qed

text \<open>
  Claim C10. For each of the eight frequencies of the table the period length
  \<open>20000 div f\<close> lies between 38 and 76. So it is at least 1: a pass of the outer loop
  that starts at line 66 with a table frequency in the shared variable reaches the
  first \<^verbatim>\<open>dacWrite\<close> of the period, after four steps, or five when the local
  \<open>frequency\<close> has to be brought up to date first.
\<close>

theorem note_periods:
  "(\<forall>f\<in>set notes_arr. 38 \<le> unat (sampling_rate div f) \<and> unat (sampling_rate div f) \<le> 76) \<and>
   (pc s = L66 \<and> currentFrequency s \<in> set notes_arr \<longrightarrow>
      dac (tone_steps fp (if frequency s = currentFrequency s then 4 else 5) s) =
        dac s @ [dac_sample fp 0 (sampling_rate div currentFrequency s)])"
proof (intro conjI impI)
  show p: "\<forall>f\<in>set notes_arr. 38 \<le> unat (sampling_rate div f) \<and> unat (sampling_rate div f) \<le> 76"
    by (simp add: notes_arr_def unat_period)
  assume a: "pc s = L66 \<and> currentFrequency s \<in> set notes_arr"
  with p have "0 < unat (sampling_rate div currentFrequency s)"
    by fastforce
  then have "0 < sampling_rate div currentFrequency s"
    by (simp add: word_less_nat_alt)
  with a first_write_from_L66 [of s]
  show "dac (tone_steps fp (if frequency s = currentFrequency s then 4 else 5) s) =
        dac s @ [dac_sample fp 0 (sampling_rate div currentFrequency s)]"
    by simp
qed

theorem note_periods_witness:
  "unat (sampling_rate div 523) = 38 \<and> unat (sampling_rate div 262) = 76 \<and>
   dac (tone_steps ieee_fp 5 (init\<lparr>currentFrequency := 440\<rparr>)) = [127]"
proof -
  have "unat (sampling_rate div 523) = 38 \<and> unat (sampling_rate div 262) = 76"
    by (simp add: unat_period)
  with note_periods [where s = "init\<lparr>currentFrequency := 440\<rparr>" and fp = ieee_fp]
  show ?thesis
    by (simp add: init_def notes_arr_def dac_sample_0 fp_sound_ieee_fp)
qed

section \<open>The earlier revision behaves alike, but for the re-check\<close>

text \<open>
  The handler of the earlier revision is the same function. A pass of its tone task
  that starts a period writes the same samples as a period of the later one, and a
  pass that reads 0 writes 128. The difference is that nothing is read inside the
  \<^verbatim>\<open>for\<close> loop: once line 55 has read a frequency the whole period is written,
  whatever the handler stores meanwhile, and a release between the reads of lines 54
  and 55 makes the division of line 56 trap. The test of line 70 and the re-check of
  line 78 are what the later revision adds.
\<close>

lemma scan_notes0_eq: "scan_notes0 i a s = scan_notes i a s"
proof (induction i a s rule: scan_notes0.induct)
  case (1 i a s)
  then show ?case
    by (simp add: scan_notes0.simps [of i] scan_notes.simps [of i] NUM_KEYS_def notes_arr_def)
qed

lemma buttonCallback0_eq: "buttonCallback0 L v s = buttonCallback L v s"
  by (simp add: buttonCallback0_def buttonCallback_def scan_notes0_eq)

lemma for_loop0_writes:
  "for_loop0 fp i period out =
     out @ map (\<lambda>k. dac_sample fp (of_nat k) period) [unat i ..< unat period]"
proof (induction fp i period out rule: for_loop0.induct)
  case (1 fp i period out)
  show ?case
  proof (cases "i < period")
    case True
    then have u: "unat (i + 1) = Suc (unat i)"
      by (rule unat_succ)
    from True have "unat i < unat period"
      by (simp add: word_less_nat_alt)
    then have "[unat i ..< unat period] = unat i # [Suc (unat i) ..< unat period]"
      by (simp add: upt_conv_Cons)
    with True "1.IH" u show ?thesis
      by (simp add: for_loop0.simps [of fp i])
  next
    case False
    then have "\<not> unat i < unat period"
      by (simp add: word_less_nat_alt)
    with False show ?thesis
      by (simp add: for_loop0.simps [of fp i])
  qed
qed

lemma toneTask0_pass_sounding:
  assumes "r54 \<noteq> 0" "f \<noteq> 0"
  shows "toneTask0_pass fp r54 f out =
     Some (out @ map (\<lambda>k. dac_sample fp (of_nat k) (sampling_rate div f)) [0 ..< 20000 div unat f])"
  using assms by (simp add: toneTask0_pass_def for_loop0_writes unat_period)

lemma toneTask0_pass_silence: "toneTask0_pass fp 0 r55 out = Some (out @ [128])"
  by (simp add: toneTask0_pass_def)

lemma toneTask0_pass_trap: "r54 \<noteq> 0 \<Longrightarrow> toneTask0_pass fp r54 0 out = None"
  by (simp add: toneTask0_pass_def)

lemma toneTask0_pass_262: "map_option length (toneTask0_pass fp 262 262 []) = Some 76"
  by (simp add: toneTask0_pass_sounding)

end
